theory Spec2Isabelle
  imports Complex_Main "HOL-Library.Sublist" "HOL-Library.Multiset"
begin

section \<open>Strings\<close>

text \<open>
  A JavaScript string is a sequence of UTF-16 code units. The model uses \<^typ>\<open>string\<close>
  and reads each \<^typ>\<open>char\<close> as one code unit below 256 (the Latin-1 range), so
  \<open>length\<close> is the \<open>.length\<close> of the source. On that range the white space of
  \<open>\s\<close> and of \<open>trim\<close> is TAB, LF, VT, FF, CR, SPACE and NBSP, and \<open>toLowerCase\<close>
  moves \<open>A\<close>..\<open>Z\<close> and the upper-case letters \<open>0xC0\<close>..\<open>0xDE\<close> (without the
  multiplication sign \<open>0xD7\<close>) up by 32.
\<close>

definition is_space :: "char \<Rightarrow> bool" where
  "is_space c = (of_char c \<in> {9, 10, 11, 12, 13, 32, 160 :: nat})"

definition lower_char :: "char \<Rightarrow> char" where
  "lower_char c =
     (let n = (of_char c :: nat)
      in if (65 \<le> n \<and> n \<le> 90) \<or> (192 \<le> n \<and> n \<le> 222 \<and> n \<noteq> 215)
         then char_of (n + 32) else c)"

definition toLowerCase :: "string \<Rightarrow> string" where
  "toLowerCase s = map lower_char s"

text \<open>\<open>s.includes(q)\<close>: some suffix of \<open>s\<close> starts with \<open>q\<close>.\<close>

fun str_includes :: "string \<Rightarrow> string \<Rightarrow> bool" where
  "str_includes [] q = (q = [])"
| "str_includes (c # cs) q = (prefix q (c # cs) \<or> str_includes cs q)"

text \<open>
  \<open>s.split(/\s+/)\<close>: the pieces between the maximal runs of white space; a string that
  starts or ends with white space gives an empty first or last piece, and the empty
  string gives one empty piece.
\<close>

function split_from :: "string \<Rightarrow> string \<Rightarrow> string list" where
  "split_from cur [] = [cur]"
| "split_from cur (c # cs) =
     (if is_space c then cur # split_from [] (dropWhile is_space cs)
      else split_from (cur @ [c]) cs)"
  by pat_completeness auto
termination
  by (relation "measure (\<lambda>(cur, s). length s)")
     (auto simp: le_imp_less_Suc length_dropWhile_le)

definition split_ws :: "string \<Rightarrow> string list" where
  "split_ws s = split_from [] s"

text \<open>\<open>xs.join(sep)\<close>.\<close>

fun join :: "string \<Rightarrow> string list \<Rightarrow> string" where
  "join sep [] = []"
| "join sep [x] = x"
| "join sep (x # y # ys) = x @ sep @ join sep (y # ys)"

text \<open>\<open>s.trim()\<close>.\<close>

definition trim :: "string \<Rightarrow> string" where
  "trim s = rev (dropWhile is_space (rev (dropWhile is_space s)))"

section \<open>Numbers\<close>

text \<open>
  A score is a JavaScript number, an IEEE 754 binary64 value. The model keeps the exact
  rational value of the double and rounds after every addition and subtraction: \<open>fl x\<close>
  is the double nearest to \<open>x\<close>, ties to the even significand of 53 bits. Scores are sums of at most a
  few thousand terms \<open>0.1\<close>, \<open>0.2\<close> and \<open>0.5\<close>, far from overflow and from the subnormal
  range, so exponent limits are left out.
\<close>

definition pow2 :: "int \<Rightarrow> rat" where
  "pow2 k = (if 0 \<le> k then 2 ^ nat k else 1 / 2 ^ nat (- k))"

function bitlen :: "int \<Rightarrow> int" where
  "bitlen n = (if n \<le> 0 then 0 else 1 + bitlen (n div 2))"
  by pat_completeness auto
termination
  by (relation "measure nat") auto

declare bitlen.simps [simp del]

text \<open>\<open>binexp a\<close> is the exponent \<open>e\<close> with \<open>2^e \<le> a < 2^(e+1)\<close>, for \<open>a > 0\<close>.\<close>

definition binexp :: "rat \<Rightarrow> int" where
  "binexp a =
     (let (p, q) = quotient_of a;
          e = bitlen p - bitlen q
      in if pow2 e \<le> a then e else e - 1)"

definition fl :: "rat \<Rightarrow> rat" where
  "fl x =
     (if x = 0 then 0
      else let a = \<bar>x\<bar>;
               u = pow2 (binexp a - 52);
               t = a / u;
               n = \<lfloor>t\<rfloor>;
               r = t - of_int n;
               m = (if r < 1 / 2 then n
                    else if 1 / 2 < r then n + 1
                    else if even n then n else n + 1)
           in sgn x * of_int m * u)"

text \<open>\<open>x + y\<close> and \<open>x - y\<close> on doubles.\<close>

definition fadd :: "rat \<Rightarrow> rat \<Rightarrow> rat" where
  "fadd x y = fl (x + y)"

definition fsub :: "rat \<Rightarrow> rat \<Rightarrow> rat" where
  "fsub x y = fl (x - y)"

text \<open>The literals \<open>0.5\<close>, \<open>0.1\<close> and \<open>0.2\<close> denote the nearest doubles.\<close>

definition lit_0_5 :: rat where
  "lit_0_5 = fl (5 / 10)"

definition lit_0_1 :: rat where
  "lit_0_1 = fl (1 / 10)"

definition lit_0_2 :: rat where
  "lit_0_2 = fl (2 / 10)"

text \<open>
  The second argument of \<open>slice\<close> is a number: \<open>NaN\<close> (what \<open>parseInt\<close> gives for a
  string without digits) or an integer. A fraction would be truncated by \<open>slice\<close> and an
  infinite value acts as any integer beyond the length, so integers cover them.
\<close>

datatype limit = NaN | Num int

text \<open>\<open>xs.slice(0, end)\<close>: \<open>NaN\<close> counts as 0, a negative end counts from the back.\<close>

fun slice0 :: "limit \<Rightarrow> 'a list \<Rightarrow> 'a list" where
  "slice0 NaN xs = []"
| "slice0 (Num k) xs =
     (if k < 0 then take (nat (int (length xs) + k)) xs else take (nat k) xs)"

text \<open>
  \<open>xs.sort(cmp)\<close> is stable: with a consistent comparator its result is the one ordered
  list that keeps entries which compare equal in their original order. Insertion from
  the right computes that list: an entry goes in front of the first later entry that it
  does not have to follow.
\<close>

fun insert_by :: "('a \<Rightarrow> 'a \<Rightarrow> rat) \<Rightarrow> 'a \<Rightarrow> 'a list \<Rightarrow> 'a list" where
  "insert_by cmp x [] = [x]"
| "insert_by cmp x (y # ys) =
     (if cmp x y \<le> 0 then x # y # ys else y # insert_by cmp x ys)"

definition sort_by :: "('a \<Rightarrow> 'a \<Rightarrow> rat) \<Rightarrow> 'a list \<Rightarrow> 'a list" where
  "sort_by cmp xs = foldr (insert_by cmp) xs []"

section \<open>The lexical fallback scorer (lib/demo-mode.ts)\<close>

record image_info =
  url :: string
  alt :: string
  width :: int
  height :: int

text \<open>
  An article of the mock corpus. The source guards \<open>article.tags || []\<close>, so \<open>tags\<close>
  may be missing.
\<close>

record article =
  art_id :: string
  title :: string
  slug :: string
  body :: string
  summary :: string
  category :: string
  tags :: "string list option"
  readTime :: string
  publishedAt :: string
  art_image :: "image_info option"

record search_result =
  res_id :: string
  score :: rat
  article :: article

definition searchableContent :: "article \<Rightarrow> string" where
  "searchableContent a =
     toLowerCase (join '' ''
       ([title a, summary a, body a, category a] @
        (case tags a of None \<Rightarrow> [] | Some ts \<Rightarrow> ts)))"

text \<open>The loop over \<open>queryWords\<close>, with the running score.\<close>

fun word_matches :: "string \<Rightarrow> string \<Rightarrow> string list \<Rightarrow> rat \<Rightarrow> rat" where
  "word_matches content titleLower [] sc = sc"
| "word_matches content titleLower (w # ws) sc =
     word_matches content titleLower ws
       (if str_includes content w
        then (let sc1 = fadd sc lit_0_1
              in if str_includes titleLower w then fadd sc1 lit_0_2 else sc1)
        else sc)"

definition score_article :: "string \<Rightarrow> string list \<Rightarrow> article \<Rightarrow> search_result" where
  "score_article queryLower words a =
     (let content = searchableContent a;
          sc0 = (if str_includes content queryLower then fadd 0 lit_0_5 else 0);
          sc1 = word_matches content (toLowerCase (title a)) words sc0;
          sc2 = min sc1 1
      in \<lparr>res_id = art_id a, score = sc2, article = a\<rparr>)"

text \<open>
  \<open>mockSearch\<close> reads the corpus from \<open>getMockArticles()\<close>; here it is the first
  argument. \<open>queryWords\<close> and \<open>scored\<close> are the local constants of the source, and
  \<open>by_score\<close> is the comparator \<open>(a, b) => b.score - a.score\<close>. A call without a limit
  uses \<open>Num 10\<close>.
\<close>

definition queryWords :: "string \<Rightarrow> string list" where
  "queryWords queryLower = filter (\<lambda>w. length w > 2) (split_ws queryLower)"

definition scored :: "article list \<Rightarrow> string \<Rightarrow> search_result list" where
  "scored articles query =
     (let queryLower = toLowerCase query
      in map (score_article queryLower (queryWords queryLower)) articles)"

abbreviation by_score :: "search_result \<Rightarrow> search_result \<Rightarrow> rat" where
  "by_score \<equiv> (\<lambda>a b. fsub (score b) (score a))"

definition mockSearch :: "article list \<Rightarrow> string \<Rightarrow> limit \<Rightarrow> search_result list" where
  "mockSearch articles query lmt =
     slice0 lmt (sort_by by_score (filter (\<lambda>item. score item > 0) (scored articles query)))"

subsection \<open>The scoring rule in the words of the specification\<close>

text \<open>
  Tokens: the lower-cased query split on white space, tokens of length at most 2
  discarded. Text: title, summary, body, category and tags, put together with single
  spaces and lower-cased. Score: start at 0; add 0.5 if the text contains the whole
  lower-cased query; for each token contained in the text add 0.1, and a further 0.2 if
  the lower-cased title contains it too; at most 1 in the end. "Contains" is
  \<^const>\<open>sublist\<close>, a contiguous part.
\<close>

definition spec_tokens :: "string \<Rightarrow> string list" where
  "spec_tokens q = filter (\<lambda>t. \<not> length t \<le> 2) (split_ws (toLowerCase q))"

definition spec_text :: "article \<Rightarrow> string" where
  "spec_text a =
     toLowerCase (title a @ '' '' @ summary a @ '' '' @ body a @ '' '' @ category a @
       concat (map (\<lambda>t. '' '' @ t) (case tags a of None \<Rightarrow> [] | Some ts \<Rightarrow> ts)))"

definition spec_score :: "string \<Rightarrow> article \<Rightarrow> rat" where
  "spec_score q a =
     (let text = spec_text a;
          phrase = (if sublist (toLowerCase q) text then fadd 0 lit_0_5 else 0);
          total = foldl (\<lambda>sc t. if sublist t text
                                 then (if sublist t (toLowerCase (title a))
                                       then fadd (fadd sc lit_0_1) lit_0_2
                                       else fadd sc lit_0_1)
                                 else sc) phrase (spec_tokens q)
      in min total 1)"

subsection \<open>A small corpus for concrete runs\<close>

definition typescript_guide :: article where
  "typescript_guide =
     \<lparr>art_id = ''1'', title = ''TypeScript Guide'', slug = ''typescript-guide'', body = [],
      summary = [], category = ''Dev'', tags = Some [], readTime = ''5 min read'',
      publishedAt = ''2024-01-01'', art_image = None\<rparr>"

definition vector_search :: article where
  "vector_search =
     \<lparr>art_id = ''2'', title = ''Vector Search'', slug = ''vector-search'',
      body = ''<p>Indexing with TypeScript</p>'', summary = ''Embeddings'', category = ''AI'',
      tags = Some [''search'', ''vectors''], readTime = ''3 min read'',
      publishedAt = ''2024-02-01'', art_image = None\<rparr>"

definition cooking :: article where
  "cooking =
     \<lparr>art_id = ''3'', title = ''Cooking'', slug = ''cooking'', body = ''Pasta'',
      summary = [], category = ''Food'', tags = None, readTime = ''2 min read'',
      publishedAt = ''2024-03-01'', art_image = None\<rparr>"

definition sample_corpus :: "article list" where
  "sample_corpus = [typescript_guide, vector_search, cooking]"

section \<open>The content normalizer (\<open>transformArticle\<close> of lib/queries.ts)\<close>

text \<open>
  The raw node has the type \<open>any\<close>: it is whatever the GraphQL response holds, a JSON
  value, or \<open>undefined\<close> where the response has nothing.
\<close>

datatype jsval =
    JUndefined
  | JNull
  | JBool bool
  | JNumber rat
  | JString string
  | JArray "jsval list"
  | JObject "(string \<times> jsval) list"

text \<open>What \<open>!v\<close>, \<open>v || w\<close> and \<open>v ? x : y\<close> test.\<close>

fun truthy :: "jsval \<Rightarrow> bool" where
  "truthy JUndefined = False"
| "truthy JNull = False"
| "truthy (JBool b) = b"
| "truthy (JNumber n) = (n \<noteq> 0)"
| "truthy (JString s) = (s \<noteq> [])"
| "truthy (JArray xs) = True"
| "truthy (JObject kvs) = True"

fun nullish :: "jsval \<Rightarrow> bool" where
  "nullish JUndefined = True"
| "nullish JNull = True"
| "nullish v = False"

text \<open>
  \<open>v.k\<close> for one of the keys that \<open>transformArticle\<close> reads (\<open>id\<close>, \<open>title\<close>, \<open>path\<close>,
  \<open>body\<close>, \<open>processed\<close>, \<open>summary\<close>, \<open>value\<close>, \<open>category\<close>, \<open>tags\<close>, \<open>readTime\<close>,
  \<open>created\<close>, \<open>time\<close>, \<open>image\<close>, \<open>url\<close>, \<open>alt\<close>, \<open>width\<close>, \<open>height\<close>): an object gives
  the property or \<open>undefined\<close>; a string, number, boolean or array has none of these
  keys. An object is the list of its properties, each key once. The source reads \<open>v.k\<close>
  only where \<open>v\<close> is truthy, and \<open>v?.k\<close> elsewhere.
\<close>

fun get :: "jsval \<Rightarrow> string \<Rightarrow> jsval" where
  "get (JObject kvs) k = (case map_of kvs k of Some v \<Rightarrow> v | None \<Rightarrow> JUndefined)"
| "get v k = JUndefined"

definition opt_get :: "jsval \<Rightarrow> string \<Rightarrow> jsval" where
  "opt_get v k = (if nullish v then JUndefined else get v k)"

definition js_or :: "jsval \<Rightarrow> jsval \<Rightarrow> jsval" where
  "js_or v w = (if truthy v then v else w)"

datatype js_error = TypeError

text \<open>\<open>s.replace(/^\/articles\//, '')\<close>.\<close>

definition strip_articles :: "string \<Rightarrow> string" where
  "strip_articles s = (if prefix ''/articles/'' s then drop 10 s else s)"

text \<open>
  \<open>node.path?.replace(...)\<close>: \<open>undefined\<close> for a missing path, the replaced string for a
  string, and a \<open>TypeError\<close> for any other value, which has no method \<open>replace\<close>.
\<close>

fun path_replace :: "jsval \<Rightarrow> js_error + jsval" where
  "path_replace JUndefined = Inr JUndefined"
| "path_replace JNull = Inr JUndefined"
| "path_replace (JString s) = Inr (JString (strip_articles s))"
| "path_replace v = Inl TypeError"

text \<open>\<open>s.split(',')\<close>.\<close>

fun split_on_from :: "char \<Rightarrow> string \<Rightarrow> string \<Rightarrow> string list" where
  "split_on_from sep cur [] = [cur]"
| "split_on_from sep cur (c # cs) =
     (if c = sep then cur # split_on_from sep [] cs else split_on_from sep (cur @ [c]) cs)"

definition split_on :: "char \<Rightarrow> string \<Rightarrow> string list" where
  "split_on sep s = split_on_from sep [] s"

text \<open>
  \<open>node.tags ? node.tags.split(',').map((t) => t.trim()) : []\<close>: only a string has the
  method \<open>split\<close>.
\<close>

fun tags_of :: "jsval \<Rightarrow> js_error + string list" where
  "tags_of (JString s) = (if s = [] then Inr [] else Inr (map trim (split_on CHR '','' s)))"
| "tags_of v = (if truthy v then Inl TypeError else Inr [])"

record image_out =
  img_url :: jsval
  img_alt :: jsval
  img_width :: jsval
  img_height :: jsval

record article_out =
  out_id :: jsval
  out_title :: jsval
  out_slug :: jsval
  out_body :: jsval
  out_summary :: jsval
  out_category :: jsval
  out_tags :: "string list"
  out_readTime :: jsval
  out_publishedAt :: jsval
  out_image :: "image_out option"

text \<open>
  \<open>now\<close> is \<open>new Date().toISOString()\<close>. \<open>Inr None\<close> is the result \<open>null\<close>, \<open>Inl\<close> a
  thrown error.
\<close>

definition transformArticle :: "string \<Rightarrow> jsval \<Rightarrow> js_error + article_out option" where
  "transformArticle now node =
     (if \<not> truthy node then Inr None
      else case path_replace (get node ''path'') of
        Inl e \<Rightarrow> Inl e
      | Inr replaced \<Rightarrow>
         (let slug = js_or replaced (get node ''id'')
          in case tags_of (get node ''tags'') of
            Inl e \<Rightarrow> Inl e
          | Inr ts \<Rightarrow>
              Inr (Some
                \<lparr>out_id = get node ''id'',
                 out_title = get node ''title'',
                 out_slug = slug,
                 out_body = js_or (opt_get (get node ''body'') ''processed'') (JString []),
                 out_summary = js_or (opt_get (get node ''summary'') ''value'') (JString []),
                 out_category = js_or (get node ''category'') (JString ''General''),
                 out_tags = ts,
                 out_readTime = js_or (get node ''readTime'') (JString ''5 min read''),
                 out_publishedAt =
                   js_or (opt_get (get node ''created'') ''time'') (JString now),
                 out_image =
                   (let image = get node ''image''
                    in if truthy image
                       then Some \<lparr>img_url = get image ''url'',
                                  img_alt = js_or (get image ''alt'') (get node ''title''),
                                  img_width = js_or (get image ''width'') (JNumber 1200),
                                  img_height = js_or (get image ''height'') (JNumber 630)\<rparr>
                       else None)\<rparr>)))"

text \<open>Raw nodes for concrete runs.\<close>

definition raw_tagged :: jsval where
  "raw_tagged =
     JObject [(''id'', JString ''n1''), (''title'', JString ''Hello''),
              (''tags'', JString ''a, b , c'')]"

definition raw_tag_list :: jsval where
  "raw_tag_list =
     JObject [(''id'', JString ''n1''), (''title'', JString ''Hello''),
              (''tags'', JArray [JString ''a'', JString ''b''])]"

definition raw_time :: string where
  "raw_time = ''2024-05-01T00:00:00.000Z''"

section \<open>The indexer (scripts/index-content.ts)\<close>

subsection \<open>The text that is embedded\<close>

text \<open>
  \<open>s.replace(/<[^>]*>/g, ' ')\<close>: a \<open><\<close> with a \<open>>\<close> somewhere behind it starts a match
  that ends at the first such \<open>>\<close>; a \<open><\<close> with no \<open>>\<close> behind it stays.
\<close>

function strip_tags :: "string \<Rightarrow> string" where
  "strip_tags [] = []"
| "strip_tags (c # cs) =
     (if c = CHR ''<'' \<and> CHR ''>'' \<in> set cs
      then CHR '' '' # strip_tags (tl (dropWhile (\<lambda>x. x \<noteq> CHR ''>'') cs))
      else c # strip_tags cs)"
  by pat_completeness auto
termination
proof (relation "measure length", goal_cases)
  case 1
  show ?case by simp
next
  case (2 c cs)
  have "length (dropWhile (\<lambda>x. x \<noteq> CHR ''>'') cs) \<le> length cs"
    by (rule length_dropWhile_le)
  then show ?case by simp
next
  case (3 c cs)
  show ?case by simp
qed

text \<open>\<open>s.replace(/\s+/g, ' ')\<close>: every maximal run of white space becomes one space.\<close>

function collapse_ws :: "string \<Rightarrow> string" where
  "collapse_ws [] = []"
| "collapse_ws (c # cs) =
     (if is_space c then CHR '' '' # collapse_ws (dropWhile is_space cs)
      else c # collapse_ws cs)"
  by pat_completeness auto
termination
  by (relation "measure length") (auto simp: le_imp_less_Suc length_dropWhile_le)

definition plainBody :: "string \<Rightarrow> string" where
  "plainBody b = trim (collapse_ws (strip_tags b))"

definition textToEmbed :: "article \<Rightarrow> string" where
  "textToEmbed a =
     title a @ [CHR 0x0A, CHR 0x0A] @ summary a @ [CHR 0x0A, CHR 0x0A] @ plainBody (body a)"

definition truncatedText :: "article \<Rightarrow> string" where
  "truncatedText a = take 32000 (textToEmbed a)"

text \<open>
  The construction in the words of the specification: tag-like substrings replaced by a
  space, white space collapsed, the three parts put together, the result cut at 32000.
\<close>

definition spec_plainBody :: "string \<Rightarrow> string" where
  "spec_plainBody b = collapse_ws (strip_tags b)"

definition spec_embedding_input :: "article \<Rightarrow> string" where
  "spec_embedding_input a =
     take 32000
       (title a @ [CHR 0x0A, CHR 0x0A] @ summary a @ [CHR 0x0A, CHR 0x0A] @
        spec_plainBody (body a))"

subsection \<open>The run\<close>

text \<open>
  The calls that \<open>main\<close> makes to the vector store, the embedding provider and the
  content source, in the order in which it makes them.
\<close>

datatype event =
    ListIndexes
  | CreateIndex string
  | WaitReady
  | DeleteAll
  | FetchArticles
  | Embed string
  | Upsert string
  | Pause

text \<open>
  What the outside answers: the environment variables, the index names that
  \<open>listIndexes\<close> returns (\<open>None\<close>: the call throws), whether \<open>createIndex\<close> returns, the
  articles that \<open>fetchArticles\<close> returns (\<open>None\<close>: it throws), and for which texts and
  ids \<open>embed\<close> and \<open>upsert\<close> return. A failing \<open>deleteAll\<close> is caught and the run goes
  on, so its answer does not show in the calls.
\<close>

record world =
  pinecone_api_key :: "string option"
  pinecone_index :: "string option"
  listed :: "string list option"
  create_ok :: bool
  fetched :: "article list option"
  embed_ok :: "string \<Rightarrow> bool"
  upsert_ok :: "string \<Rightarrow> bool"

datatype outcome = Returned | Exit nat

text \<open>\<open>ensureIndexExists\<close>: the calls made, and whether it returned.\<close>

definition ensureIndexExists :: "world \<Rightarrow> string \<Rightarrow> event list \<times> bool" where
  "ensureIndexExists w indexName =
     (case listed w of
        None \<Rightarrow> ([ListIndexes], False)
      | Some names \<Rightarrow>
          if indexName \<in> set names then ([ListIndexes], True)
          else if create_ok w then ([ListIndexes, CreateIndex indexName, WaitReady], True)
          else ([ListIndexes, CreateIndex indexName], False))"

text \<open>The loop over the articles: it stops at the first call that throws.\<close>

fun index_articles :: "world \<Rightarrow> article list \<Rightarrow> event list \<times> bool" where
  "index_articles w [] = ([], True)"
| "index_articles w (a # as) =
     (let text = truncatedText a
      in if \<not> embed_ok w text then ([Embed text], False)
         else if \<not> upsert_ok w (art_id a) then ([Embed text, Upsert (art_id a)], False)
         else (let (evs, ok) = index_articles w as
               in (Embed text # Upsert (art_id a) # Pause # evs, ok)))"

text \<open>\<open>process.env.PINECONE_INDEX || 'decoupled-search'\<close>.\<close>

definition indexName :: "world \<Rightarrow> string" where
  "indexName w =
     (case pinecone_index w of
        None \<Rightarrow> ''decoupled-search''
      | Some n \<Rightarrow> if n = [] then ''decoupled-search'' else n)"

definition main :: "world \<Rightarrow> bool \<Rightarrow> event list \<times> outcome" where
  "main w shouldReset =
     (case pinecone_api_key w of
        None \<Rightarrow> ([], Exit 1)
      | Some key \<Rightarrow>
          if key = [] then ([], Exit 1)
          else
            let (ensured, ok) = ensureIndexExists w (indexName w)
            in if \<not> ok then (ensured, Exit 1)
               else
                 let reset = (if shouldReset then [DeleteAll] else [])
                 in case fetched w of
                      None \<Rightarrow> (ensured @ reset @ [FetchArticles], Exit 1)
                    | Some articles \<Rightarrow>
                        if articles = [] then (ensured @ reset @ [FetchArticles], Exit 0)
                        else
                          let (evs, done) = index_articles w articles
                          in (ensured @ reset @ [FetchArticles] @ evs,
                              if done then Returned else Exit 1))"

text \<open>The calls of the existence step, and the calls of the loop.\<close>

fun ensure_event :: "event \<Rightarrow> bool" where
  "ensure_event ListIndexes = True"
| "ensure_event (CreateIndex n) = True"
| "ensure_event WaitReady = True"
| "ensure_event e = False"

fun loop_event :: "event \<Rightarrow> bool" where
  "loop_event (Embed t) = True"
| "loop_event (Upsert i) = True"
| "loop_event Pause = True"
| "loop_event e = False"

text \<open>A world for concrete runs: no index yet, every call returns.\<close>

definition fresh_world :: world where
  "fresh_world =
     \<lparr>pinecone_api_key = Some ''key'', pinecone_index = None, listed = Some [],
      create_ok = True, fetched = Some [cooking],
      embed_ok = (\<lambda>t. True), upsert_ok = (\<lambda>i. True)\<rparr>"

section \<open>The search endpoint (app/api/search/route.ts, \<open>GET\<close>)\<close>

text \<open>
  \<open>parseInt(s, 10)\<close>: leading white space is skipped, a sign is read, then the decimal
  digits up to the first other character; without a digit the result is \<open>NaN\<close>. The
  result is a double: the integer that the digits denote, rounded by \<open>fl\<close>, so a value
  beyond \<open>2^53\<close> becomes the nearest double, which is again an integer. (Beyond the
  largest double the source gives \<open>Infinity\<close>, which \<open>slice\<close> treats as any integer past
  the length.)
\<close>

definition is_digit :: "char \<Rightarrow> bool" where
  "is_digit c = (48 \<le> (of_char c :: nat) \<and> (of_char c :: nat) \<le> 57)"

definition digits_value :: "string \<Rightarrow> int" where
  "digits_value ds = foldl (\<lambda>n c. 10 * n + (int (of_char c) - 48)) 0 ds"

fun strip_sign :: "string \<Rightarrow> bool \<times> string" where
  "strip_sign [] = (False, [])"
| "strip_sign (c # cs) =
     (if c = CHR ''-'' then (True, cs)
      else if c = CHR ''+'' then (False, cs)
      else (False, c # cs))"

definition parseInt :: "string \<Rightarrow> limit" where
  "parseInt s =
     (let (neg, u) = strip_sign (dropWhile is_space s);
          ds = takeWhile is_digit u
      in if ds = [] then NaN
         else Num \<lfloor>fl (of_int (if neg then - digits_value ds else digits_value ds))\<rfloor>)"

text \<open>The two query parameters; \<open>None\<close> is what \<open>searchParams.get\<close> gives for a missing one.\<close>

record request =
  param_q :: "string option"
  param_limit :: "string option"

text \<open>An error thrown by \<open>searchArticles\<close>, with its \<open>message\<close> if it has one.\<close>

datatype thrown = Thrown "string option"

text \<open>
  What \<open>GET\<close> reads beside the request: the demo flag, the mock corpus, and the vector
  search of lib/pinecone.ts, which is not part of the handler and is taken as it answers.
\<close>

record search_env =
  demo_mode :: bool
  mock_articles :: "article list"
  searchArticles :: "string \<Rightarrow> limit \<Rightarrow> thrown + search_result list"

datatype body =
    ErrorBody string
  | ResultsBody string "search_result list" nat

record response =
  status :: nat
  payload :: body

datatype backend_call =
    MockSearch string limit
  | SearchArticles string limit

definition q_required :: string where
  "q_required = ''Query parameter '' @ [CHR 0x22] @ ''q'' @ [CHR 0x22] @ '' is required''"

definition bad_request :: response where
  "bad_request = \<lparr>status = 400, payload = ErrorBody q_required\<rparr>"

text \<open>The response, and the backend calls made on the way.\<close>

definition GET :: "search_env \<Rightarrow> request \<Rightarrow> response \<times> backend_call list" where
  "GET env req =
     (let query = param_q req;
          limit = parseInt (case param_limit req of
                              None \<Rightarrow> ''10''
                            | Some s \<Rightarrow> if s = [] then ''10'' else s)
      in case query of
           None \<Rightarrow> (bad_request, [])
         | Some qs \<Rightarrow>
             if qs = [] then (bad_request, [])
             else if demo_mode env then
               (let results = mockSearch (mock_articles env) qs limit
                in (\<lparr>status = 200, payload = ResultsBody qs results (length results)\<rparr>,
                    [MockSearch qs limit]))
             else
               (case searchArticles env qs limit of
                  Inr results \<Rightarrow>
                    (\<lparr>status = 200, payload = ResultsBody qs results (length results)\<rparr>,
                     [SearchArticles qs limit])
                | Inl (Thrown message) \<Rightarrow>
                    (if (case message of
                           None \<Rightarrow> False
                         | Some m \<Rightarrow> str_includes m ''PINECONE_API_KEY'')
                     then \<lparr>status = 503,
                           payload = ErrorBody
                             ''Pinecone is not configured. Please run npm run setup.''\<rparr>
                     else \<lparr>status = 500,
                           payload = ErrorBody ''Search failed. Please try again.''\<rparr>,
                     [SearchArticles qs limit])))"

text \<open>A demo environment for concrete runs.\<close>

definition demo_env :: search_env where
  "demo_env =
     \<lparr>demo_mode = True, mock_articles = sample_corpus,
      searchArticles = (\<lambda>query lmt. Inl (Thrown (Some ''PINECONE_API_KEY is not set'')))\<rparr>"

section \<open>Properties of the scorer\<close>

subsection \<open>Rounding keeps the sign\<close>

text \<open>
  A difference of two doubles is rounded to a double of the same sign: the comparator of
  the sort is negative, zero or positive exactly as the exact difference of the scores.
\<close>

lemma pow2_powi: "pow2 k = 2 powi k"
  by (simp add: pow2_def power_int_def power_one_over inverse_eq_divide)

lemma pow2_pos: "0 < pow2 k"
  by (simp add: pow2_powi)

lemma bitlen_bounds:
  "0 < n \<Longrightarrow> 1 \<le> bitlen n \<and> 2 ^ nat (bitlen n - 1) \<le> n \<and> n < 2 ^ nat (bitlen n)"
proof (induction n rule: bitlen.induct)
  case (1 n)
  show ?case
  proof (cases "n div 2 = 0")
    case True
    with 1 have "n = 1" by auto
    then show ?thesis by (simp add: bitlen.simps [of 1] bitlen.simps [of 0])
  next
    case False
    with 1 have pos: "0 < n div 2" by auto
    let ?b = "bitlen (n div 2)"
    from 1 pos have ih: "1 \<le> ?b" "2 ^ nat (?b - 1) \<le> n div 2" "n div 2 < 2 ^ nat ?b"
      by auto
    have b: "bitlen n = ?b + 1" using 1 by (simp add: bitlen.simps [of n])
    have "nat (?b + 1 - 1) = Suc (nat (?b - 1))" using ih(1) by auto
    then have "(2::int) ^ nat (bitlen n - 1) = 2 * 2 ^ nat (?b - 1)" by (simp add: b)
    also have "\<dots> \<le> 2 * (n div 2)" using ih(2) by simp
    also have "\<dots> \<le> n" by (simp add: 1)
    finally have lo: "2 ^ nat (bitlen n - 1) \<le> n" .
    have "nat (?b + 1) = Suc (nat ?b)" using ih(1) by auto
    then have "(2::int) ^ nat (bitlen n) = 2 * 2 ^ nat ?b" by (simp add: b)
    moreover have "n < 2 * (n div 2) + 2" by presburger
    moreover have "2 * (n div 2) + 2 \<le> 2 * 2 ^ nat ?b" using ih(3) by simp
    ultimately have hi: "n < 2 ^ nat (bitlen n)" by linarith
    from lo hi b ih(1) show ?thesis by simp
  qed
qed

lemma binexp_le:
  assumes "0 < a"
  shows "pow2 (binexp a) \<le> a"
proof -
  obtain p q where pq: "quotient_of a = (p, q)" by (cases "quotient_of a")
  then have q: "0 < q" and a: "a = of_int p / of_int q"
    by (simp_all add: quotient_of_denom_pos quotient_of_div)
  with assms have p: "0 < p" by (simp add: zero_less_divide_iff)
  let ?e = "bitlen p - bitlen q"
  show ?thesis
  proof (cases "pow2 ?e \<le> a")
    case True
    then show ?thesis by (simp add: binexp_def pq)
  next
    case False
    then have be: "binexp a = ?e - 1" by (simp add: binexp_def pq)
    have bp: "1 \<le> bitlen p" "2 ^ nat (bitlen p - 1) \<le> p" using bitlen_bounds [OF p] by auto
    have bq: "1 \<le> bitlen q" "q < 2 ^ nat (bitlen q)" using bitlen_bounds [OF q] by auto
    have "(2::rat) powi (bitlen p - 1) = 2 ^ nat (bitlen p - 1)"
      using bp(1) by (simp add: power_int_def)
    also have "\<dots> \<le> of_int p"
      using bp(2) by (metis of_int_le_iff of_int_numeral of_int_power)
    finally have num: "(2::rat) powi (bitlen p - 1) \<le> of_int p" .
    have "(of_int q :: rat) \<le> 2 ^ nat (bitlen q)"
      using bq(2) by (metis less_imp_le of_int_le_iff of_int_numeral of_int_power)
    also have "\<dots> = 2 powi (bitlen q)"
      using bq(1) by (simp add: power_int_def)
    finally have den: "(of_int q :: rat) \<le> 2 powi (bitlen q)" .
    have "?e - 1 = (bitlen p - 1) - bitlen q" by simp
    then have "pow2 (?e - 1) = 2 powi ((bitlen p - 1) - bitlen q)"
      by (simp only: pow2_powi)
    also have "\<dots> = 2 powi (bitlen p - 1) / 2 powi (bitlen q)"
      by (rule power_int_diff) simp
    also have "\<dots> \<le> of_int p / of_int q"
      using num den q p by (intro frac_le) auto
    finally have "pow2 (?e - 1) \<le> a" using a by simp
    then show ?thesis by (simp only: be)
  qed
qed

lemma fl_sgn:
  assumes "x \<noteq> 0"
  shows "\<exists>y. 0 < y \<and> fl x = sgn x * y"
proof -
  let ?a = "\<bar>x\<bar>"
  let ?u = "pow2 (binexp ?a - 52)"
  let ?t = "?a / ?u"
  let ?n = "\<lfloor>?t\<rfloor>"
  let ?r = "?t - of_int ?n"
  let ?m = "if ?r < 1 / 2 then ?n else if 1 / 2 < ?r then ?n + 1
            else if even ?n then ?n else ?n + 1"
  have a: "0 < ?a" using assms by simp
  have u: "0 < ?u" by (rule pow2_pos)
  have "pow2 (binexp ?a) \<le> ?a" using a by (rule binexp_le)
  moreover have "pow2 (binexp ?a) = 2 ^ 52 * ?u"
    by (simp add: pow2_powi power_int_diff)
  ultimately have "2 ^ 52 \<le> ?t" using u by (simp add: pos_le_divide_eq)
  moreover have "(1::rat) \<le> 2 ^ 52" by simp
  ultimately have "1 \<le> ?t" by linarith
  then have "1 \<le> ?n" by linarith
  then have "1 \<le> ?m" by auto
  then have "0 < (of_int ?m :: rat) * ?u" using u by simp
  moreover have "fl x = sgn x * (of_int ?m * ?u)"
    using assms by (simp add: fl_def Let_def mult.assoc)
  ultimately show ?thesis by blast
qed

lemma fl_le_0_iff: "fl x \<le> 0 \<longleftrightarrow> x \<le> 0"
proof (cases "x = 0")
  case True
  then show ?thesis by (simp add: fl_def)
next
  case False
  then obtain y where "0 < y" "fl x = sgn x * y" using fl_sgn by blast
  then show ?thesis
    using False by (cases "0 < x") (auto simp: sgn_if mult_le_0_iff)
qed

lemma fsub_le_0_iff: "fsub x y \<le> 0 \<longleftrightarrow> x \<le> y"
  by (simp add: fsub_def fl_le_0_iff)

subsection \<open>Strings, sorting and slicing\<close>

lemma str_includes_sublist: "str_includes s q \<longleftrightarrow> sublist q s"
  by (induction s) (simp_all add: sublist_Cons_right)

lemma join_Cons: "join sep (x # xs) = x @ concat (map (\<lambda>t. sep @ t) xs)"
  by (induction xs arbitrary: x) simp_all

lemma sort_by_Nil: "sort_by cmp [] = []"
  by (simp add: sort_by_def)

lemma sort_by_Cons: "sort_by cmp (x # xs) = insert_by cmp x (sort_by cmp xs)"
  by (simp add: sort_by_def)

lemma mset_insert_by: "mset (insert_by cmp x ys) = add_mset x (mset ys)"
  by (induction ys) simp_all

lemma mset_sort_by: "mset (sort_by cmp xs) = mset xs"
  by (induction xs) (simp_all add: sort_by_Nil sort_by_Cons mset_insert_by)

lemma set_sort_by: "set (sort_by cmp xs) = set xs"
  using mset_sort_by [of cmp xs] by (metis set_mset_mset)

lemma sorted_insert_by:
  "sorted_wrt (\<lambda>a b. score b \<le> score a) ys \<Longrightarrow>
   sorted_wrt (\<lambda>a b. score b \<le> score a) (insert_by by_score x ys)"
proof (induction ys)
  case Nil
  then show ?case by simp
next
  case (Cons y ys)
  show ?case
  proof (cases "score y \<le> score x")
    case True
    with Cons.prems show ?thesis by (auto simp: fsub_le_0_iff)
  next
    case False
    then have "score x \<le> score y" by simp
    moreover have "\<forall>z\<in>set ys. score z \<le> score y" using Cons.prems by simp
    ultimately have "\<forall>z\<in>set (insert_by by_score x ys). score z \<le> score y"
      using mset_insert_by [of by_score x ys]
      by (metis insert_iff set_mset_add_mset_insert set_mset_mset)
    with Cons False show ?thesis by (simp add: fsub_le_0_iff)
  qed
qed

lemma sorted_sort_by: "sorted_wrt (\<lambda>a b. score b \<le> score a) (sort_by by_score xs)"
  by (induction xs) (simp_all add: sort_by_Nil sort_by_Cons sorted_insert_by)

text \<open>An entry passes only entries of a strictly higher score, so ties keep their order.\<close>

lemma filter_insert_by:
  "filter (\<lambda>r. score r = s) (insert_by by_score x ys) =
   (if score x = s then x # filter (\<lambda>r. score r = s) ys else filter (\<lambda>r. score r = s) ys)"
  by (induction ys) (auto simp: fsub_le_0_iff)

lemma filter_sort_by:
  "filter (\<lambda>r. score r = s) (sort_by by_score xs) = filter (\<lambda>r. score r = s) xs"
  by (induction xs) (simp_all add: sort_by_Nil sort_by_Cons filter_insert_by)

lemma sort_by_ties: "\<forall>x\<in>set xs. \<forall>y\<in>set xs. cmp x y \<le> 0 \<Longrightarrow> sort_by cmp xs = xs"
proof (induction xs)
  case Nil
  then show ?case by (simp add: sort_by_Nil)
next
  case (Cons x xs)
  then have "sort_by cmp xs = xs" by simp
  with Cons.prems show ?case by (cases xs) (simp_all add: sort_by_Cons)
qed

lemma slice0_take: "\<exists>n. slice0 lmt xs = take n xs"
  by (cases lmt) (auto intro: exI [of _ 0])

lemma prefix_filter_take: "prefix (filter P (take n xs)) (filter P xs)"
proof -
  have "filter P xs = filter P (take n xs) @ filter P (drop n xs)"
    by (metis append_take_drop_id filter_append)
  then show ?thesis by (simp add: prefix_def)
qed

subsection \<open>The parts of \<open>mockSearch\<close>\<close>

lemma mockSearch_take:
  "\<exists>n. mockSearch corpus q lmt =
     take n (sort_by by_score (filter (\<lambda>r. 0 < score r) (scored corpus q)))"
  using slice0_take by (simp add: mockSearch_def)

lemma score_article_le_1: "score (score_article ql qw a) \<le> 1"
  by (simp add: score_article_def Let_def)

lemma score_article_fields:
  "res_id (score_article ql qw a) = art_id a" "article (score_article ql qw a) = a"
  by (simp_all add: score_article_def Let_def)

lemma map_article_scored: "map article (scored corpus q) = corpus"
  by (simp add: scored_def Let_def score_article_fields comp_def)

lemma scored_set:
  "r \<in> set (scored corpus q) \<Longrightarrow>
   score r \<le> 1 \<and> res_id r = art_id (article r) \<and> article r \<in> set corpus"
  by (auto simp: scored_def Let_def score_article_le_1 score_article_fields)

lemma mockSearch_set:
  "r \<in> set (mockSearch corpus q lmt) \<Longrightarrow> 0 < score r \<and> r \<in> set (scored corpus q)"
proof -
  assume r: "r \<in> set (mockSearch corpus q lmt)"
  obtain n where "mockSearch corpus q lmt =
     take n (sort_by by_score (filter (\<lambda>r. 0 < score r) (scored corpus q)))"
    using mockSearch_take by blast
  with r have "r \<in> set (sort_by by_score (filter (\<lambda>r. 0 < score r) (scored corpus q)))"
    by (metis in_set_takeD)
  then show ?thesis by (simp add: set_sort_by)
qed

subsection \<open>Values of the double arithmetic\<close>

text \<open>
  The doubles of the literals, and the sum \<open>0.1 + 0.2\<close>, which is the double
  \<open>0.30000000000000004\<close> and not the double \<open>0.3\<close>.
\<close>

lemma lit_values:
  "lit_0_5 = 1 / 2"
  "lit_0_1 = 3602879701896397 / 36028797018963968"
  "lit_0_2 = 3602879701896397 / 18014398509481984"
  by code_simp+

lemma fadd_0_1_0_2:
  "fadd lit_0_1 lit_0_2 = 1351079888211149 / 4503599627370496"
  "fl (3 / 10) = 5404319552844595 / 18014398509481984"
  by code_simp+

lemma fadd_phrase: "fadd 0 lit_0_5 = 1 / 2"
  by code_simp

lemma fadd_phrase_word_title:
  "fadd (fadd (fadd 0 lit_0_5) lit_0_1) lit_0_2 = 3602879701896397 / 4503599627370496"
  by code_simp

lemma fl_0_8: "fl (8 / 10) = 3602879701896397 / 4503599627370496"
  by code_simp

subsection \<open>The scoring rule\<close>

lemma searchableContent_spec: "searchableContent a = spec_text a"
  by (simp add: searchableContent_def spec_text_def join_Cons)

lemma word_matches_foldl:
  "word_matches content ttl ws sc =
   foldl (\<lambda>sc t. if sublist t content
                  then (if sublist t ttl then fadd (fadd sc lit_0_1) lit_0_2 else fadd sc lit_0_1)
                  else sc) sc ws"
  by (induction ws arbitrary: sc) (simp_all add: str_includes_sublist Let_def)

lemma score_article_spec:
  "score_article (toLowerCase q) (queryWords (toLowerCase q)) a =
   \<lparr>res_id = art_id a, score = spec_score q a, article = a\<rparr>"
proof -
  have "queryWords (toLowerCase q) = spec_tokens q"
    by (simp add: queryWords_def spec_tokens_def not_le)
  then show ?thesis
    by (simp add: score_article_def spec_score_def Let_def searchableContent_spec
        word_matches_foldl str_includes_sublist)
qed

text \<open>
  C1. For every query and every article of the corpus, the score that \<open>mockSearch\<close>
  computes is the score of the specification's rule: start at 0, add 0.5 if the
  lower-cased searchable text contains the whole lower-cased query, add 0.1 for each
  token (length above 2) that the text contains and a further 0.2 if the lower-cased
  title contains it too, and cap the sum at 1. The result list is made of these scores:
  the positive ones, ordered, cut by the limit.
\<close>

theorem mockSearch_score_rule:
  "scored corpus q = map (\<lambda>a. \<lparr>res_id = art_id a, score = spec_score q a, article = a\<rparr>) corpus \<and>
   mockSearch corpus q lmt =
     slice0 lmt (sort_by by_score
       (filter (\<lambda>r. 0 < score r)
          (map (\<lambda>a. \<lparr>res_id = art_id a, score = spec_score q a, article = a\<rparr>) corpus)))"
proof -
  have "score_article (toLowerCase q) (queryWords (toLowerCase q)) =
        (\<lambda>a. \<lparr>res_id = art_id a, score = spec_score q a, article = a\<rparr>)"
    by (rule ext) (rule score_article_spec)
  then have "scored corpus q =
      map (\<lambda>a. \<lparr>res_id = art_id a, score = spec_score q a, article = a\<rparr>) corpus"
    by (simp add: scored_def Let_def)
  then show ?thesis by (simp add: mockSearch_def)
qed

subsection \<open>Order, range and length of the result\<close>

lemma sample_typescript_1:
  "mockSearch sample_corpus ''typescript'' (Num 1) =
     [\<lparr>res_id = ''1'', score = 3602879701896397 / 4503599627370496,
       article = typescript_guide\<rparr>]"
  by code_simp

text \<open>
  C4, as the claim states it, fails for a negative limit: \<open>slice(0, -1)\<close> drops the last
  entry, and the one entry that is left is more than \<open>-1\<close> entries.
\<close>

theorem mockSearch_negative_limit_counterexample:
  "\<not> int (length (mockSearch sample_corpus ''typescript'' (Num (- 1)))) \<le> - 1"
  by code_simp

text \<open>
  C4, amended. For every query, limit and corpus the result list is ordered by score,
  non-increasing, every score in it is above 0 and at most 1, and its length is at most
  the limit when the limit is an integer that is not negative; for the limit \<open>NaN\<close> the
  list is empty, and for a negative limit \<open>-j\<close> (\<open>j\<close> at least 1) it is the ranked list
  without its last \<open>j\<close> entries.
\<close>

theorem mockSearch_ordered_bounded:
  "sorted_wrt (\<lambda>a b. score b \<le> score a) (mockSearch corpus q lmt) \<and>
   (\<forall>r\<in>set (mockSearch corpus q lmt). 0 < score r \<and> score r \<le> 1) \<and>
   (0 \<le> k \<longrightarrow> int (length (mockSearch corpus q (Num k))) \<le> k) \<and>
   mockSearch corpus q NaN = [] \<and>
   mockSearch corpus q (Num (- int (Suc j))) =
     take (length (sort_by by_score (filter (\<lambda>r. 0 < score r) (scored corpus q))) - Suc j)
       (sort_by by_score (filter (\<lambda>r. 0 < score r) (scored corpus q)))"
proof -
  obtain n where n: "mockSearch corpus q lmt =
     take n (sort_by by_score (filter (\<lambda>r. 0 < score r) (scored corpus q)))"
    using mockSearch_take by blast
  have "sorted_wrt (\<lambda>a b. score b \<le> score a) (mockSearch corpus q lmt)"
    unfolding n by (rule sorted_wrt_take) (rule sorted_sort_by)
  moreover have "\<forall>r\<in>set (mockSearch corpus q lmt). 0 < score r \<and> score r \<le> 1"
    using mockSearch_set scored_set by blast
  moreover have "0 \<le> k \<longrightarrow> int (length (mockSearch corpus q (Num k))) \<le> k"
    by (auto simp: mockSearch_def)
  moreover have "mockSearch corpus q NaN = []"
    by (simp add: mockSearch_def)
  moreover have "mockSearch corpus q (Num (- int (Suc j))) =
     take (length (sort_by by_score (filter (\<lambda>r. 0 < score r) (scored corpus q))) - Suc j)
       (sort_by by_score (filter (\<lambda>r. 0 < score r) (scored corpus q)))"
  proof -
    let ?R = "sort_by by_score (filter (\<lambda>r. 0 < score r) (scored corpus q))"
    have "nat (int (length ?R) + - int (Suc j)) = length ?R - Suc j"
      by linarith
    then show ?thesis by (simp add: mockSearch_def)
  qed
  ultimately show ?thesis by blast
qed

theorem mockSearch_ordered_bounded_witness:
  "mockSearch sample_corpus ''typescript'' (Num 1) \<noteq> [] \<and>
   sorted_wrt (\<lambda>a b. score b \<le> score a) (mockSearch sample_corpus ''typescript'' (Num 1)) \<and>
   list_all (\<lambda>r. 0 < score r \<and> score r \<le> 1)
     (mockSearch sample_corpus ''typescript'' (Num 1)) \<and>
   (0::int) \<le> 1 \<and> int (length (mockSearch sample_corpus ''typescript'' (Num 1))) \<le> 1"
  using mockSearch_ordered_bounded [of sample_corpus "''typescript''" "Num 1" 1]
  by (simp add: sample_typescript_1)

subsection \<open>Ties\<close>

text \<open>
  C5. \<open>mockSearch\<close> is a function of the corpus, the query and the limit alone, so equal
  arguments give the same list; and for every score \<open>s\<close> the results with score \<open>s\<close>
  are an initial part of the scored articles with score \<open>s\<close>, taken in corpus order:
  two results with equal scores stand in the order of their articles in the corpus.
\<close>

theorem mockSearch_deterministic_stable:
  "(corpus' = corpus \<and> q' = q \<and> lmt' = lmt \<longrightarrow>
      mockSearch corpus' q' lmt' = mockSearch corpus q lmt) \<and>
   prefix (filter (\<lambda>r. score r = s) (mockSearch corpus q lmt))
          (filter (\<lambda>r. score r = s) (scored corpus q)) \<and>
   map article (scored corpus q) = corpus"
proof -
  obtain n where n: "mockSearch corpus q lmt =
     take n (sort_by by_score (filter (\<lambda>r. 0 < score r) (scored corpus q)))"
    using mockSearch_take by blast
  have "prefix (filter (\<lambda>r. score r = s) (mockSearch corpus q lmt))
          (filter (\<lambda>r. score r = s)
             (sort_by by_score (filter (\<lambda>r. 0 < score r) (scored corpus q))))"
    unfolding n by (rule prefix_filter_take)
  also have "filter (\<lambda>r. score r = s)
             (sort_by by_score (filter (\<lambda>r. 0 < score r) (scored corpus q))) =
        filter (\<lambda>r. score r = s) (filter (\<lambda>r. 0 < score r) (scored corpus q))"
    by (rule filter_sort_by)
  also have "\<dots> = (if 0 < s then filter (\<lambda>r. score r = s) (scored corpus q) else [])"
    by (auto intro: filter_cong)
  finally have "prefix (filter (\<lambda>r. score r = s) (mockSearch corpus q lmt))
          (filter (\<lambda>r. score r = s) (scored corpus q))"
    by (simp split: if_splits)
  then show ?thesis by (simp add: map_article_scored)
qed

lemma sample_empty_query_2:
  "map res_id (mockSearch sample_corpus [] (Num 2)) = [''1'', ''2''] \<and>
   map score (mockSearch sample_corpus [] (Num 2)) = [1 / 2, 1 / 2]"
  by code_simp

theorem mockSearch_deterministic_stable_witness:
  "mockSearch sample_corpus [] (Num 2) = mockSearch sample_corpus [] (Num 2) \<and>
   map res_id (mockSearch sample_corpus [] (Num 2)) = [''1'', ''2''] \<and>
   map score (mockSearch sample_corpus [] (Num 2)) = [1 / 2, 1 / 2] \<and>
   prefix (filter (\<lambda>r. score r = 1 / 2) (mockSearch sample_corpus [] (Num 2)))
          (filter (\<lambda>r. score r = 1 / 2) (scored sample_corpus []))"
  using mockSearch_deterministic_stable
    [of sample_corpus sample_corpus "[]" "[]" "Num 2" "Num 2" "1 / 2"]
    sample_empty_query_2
  by simp

subsection \<open>Results and corpus articles\<close>

text \<open>
  C10. Every result carries the id of its article, the articles of the results are
  articles of the corpus, unchanged, and no corpus entry gives more than one result: the
  articles of the results, with their multiplicities, are among those of the corpus.
\<close>

theorem mockSearch_results_from_corpus:
  "(\<forall>r\<in>set (mockSearch corpus q lmt). res_id r = art_id (article r) \<and> article r \<in> set corpus) \<and>
   mset (map article (mockSearch corpus q lmt)) \<subseteq># mset corpus"
proof -
  obtain n where n: "mockSearch corpus q lmt =
     take n (sort_by by_score (filter (\<lambda>r. 0 < score r) (scored corpus q)))"
    using mockSearch_take by blast
  let ?pos = "filter (\<lambda>r. 0 < score r) (scored corpus q)"
  have "mset (mockSearch corpus q lmt) \<subseteq># mset (sort_by by_score ?pos)"
    unfolding n by (metis append_take_drop_id mset_append mset_subset_eq_add_left)
  also have "mset (sort_by by_score ?pos) = mset ?pos"
    by (rule mset_sort_by)
  also have "mset ?pos \<subseteq># mset (scored corpus q)"
    by simp
  finally have "image_mset article (mset (mockSearch corpus q lmt)) \<subseteq>#
                image_mset article (mset (scored corpus q))"
    by (rule image_mset_subseteq_mono)
  then have "mset (map article (mockSearch corpus q lmt)) \<subseteq># mset corpus"
    using map_article_scored [of corpus q] by (metis mset_map)
  moreover have "\<forall>r\<in>set (mockSearch corpus q lmt).
      res_id r = art_id (article r) \<and> article r \<in> set corpus"
    using mockSearch_set scored_set by blast
  ultimately show ?thesis by blast
qed

theorem mockSearch_results_from_corpus_witness:
  "mockSearch sample_corpus ''typescript'' (Num 1) \<noteq> [] \<and>
   list_all (\<lambda>r. res_id r = art_id (article r) \<and> article r \<in> set sample_corpus)
     (mockSearch sample_corpus ''typescript'' (Num 1)) \<and>
   mset (map article (mockSearch sample_corpus ''typescript'' (Num 1))) \<subseteq># mset sample_corpus"
  using mockSearch_results_from_corpus [of sample_corpus "''typescript''" "Num 1"]
  by (simp add: sample_typescript_1)

subsection \<open>Empty and blank queries\<close>

lemma lower_char_space: "is_space c \<Longrightarrow> lower_char c = c"
  by (auto simp: is_space_def lower_char_def Let_def)

lemma toLowerCase_blank: "\<forall>c\<in>set q. is_space c \<Longrightarrow> toLowerCase q = q"
  by (induction q) (simp_all add: toLowerCase_def lower_char_space)

lemma queryWords_blank: "\<forall>c\<in>set q. is_space c \<Longrightarrow> queryWords q = []"
proof (cases q)
  case Nil
  then show ?thesis by (simp add: queryWords_def split_ws_def)
next
  case (Cons c cs)
  assume "\<forall>c\<in>set q. is_space c"
  with Cons have c: "is_space c" and "\<forall>x\<in>set cs. is_space x" by simp_all
  then have d: "dropWhile is_space cs = []" by (simp add: dropWhile_eq_Nil_conv)
  show ?thesis unfolding Cons by (simp add: queryWords_def split_ws_def c d)
qed

lemma score_article_no_words:
  "score_article q [] a =
   \<lparr>res_id = art_id a, score = (if sublist q (searchableContent a) then 1 / 2 else 0),
    article = a\<rparr>"
  by (simp add: score_article_def Let_def fadd_phrase str_includes_sublist)

lemma filter_positive_blank:
  "filter (\<lambda>r. 0 < score r)
     (map (\<lambda>a. \<lparr>res_id = art_id a, score = (if P a then 1 / 2 else 0), article = a\<rparr>) xs) =
   map (\<lambda>a. \<lparr>res_id = art_id a, score = 1 / 2, article = a\<rparr>) (filter P xs)"
  by (induction xs) simp_all

text \<open>
  C2, as the claim states it, fails: the empty string is part of every searchable text
  and a single space is part of every text that joins four fields, so each article gets
  the phrase bonus and is returned.
\<close>

theorem mockSearch_blank_query_counterexample:
  "mockSearch sample_corpus [] (Num 10) \<noteq> [] \<and> mockSearch sample_corpus '' '' (Num 10) \<noteq> []"
  by code_simp

text \<open>
  C2, amended. For every limit and corpus, a query that is empty or made of white space
  only leaves no token, so an article scores 0.5 if its lower-cased searchable text
  contains the query and 0 otherwise: the scorer returns the articles whose text
  contains the query, in corpus order, each with score 0.5, cut by the limit.
\<close>

theorem mockSearch_blank_query:
  assumes "\<forall>c\<in>set q. is_space c"
  shows "mockSearch corpus q lmt =
     slice0 lmt (map (\<lambda>a. \<lparr>res_id = art_id a, score = 1 / 2, article = a\<rparr>)
       (filter (\<lambda>a. sublist q (searchableContent a)) corpus))"
proof -
  let ?hits = "map (\<lambda>a. \<lparr>res_id = art_id a, score = 1 / 2, article = a\<rparr>)
       (filter (\<lambda>a. sublist q (searchableContent a)) corpus)"
  have "toLowerCase q = q" "queryWords q = []"
    using assms by (simp_all add: toLowerCase_blank queryWords_blank)
  then have "scored corpus q =
      map (\<lambda>a. \<lparr>res_id = art_id a,
                 score = (if sublist q (searchableContent a) then 1 / 2 else 0),
                 article = a\<rparr>) corpus"
    by (simp add: scored_def Let_def score_article_no_words)
  then have "filter (\<lambda>r. 0 < score r) (scored corpus q) = ?hits"
    by (simp add: filter_positive_blank)
  moreover have "sort_by by_score ?hits = ?hits"
    by (rule sort_by_ties) (auto simp: fsub_le_0_iff)
  ultimately show ?thesis by (simp add: mockSearch_def)
qed

theorem mockSearch_blank_query_witness:
  "list_all is_space '' '' \<and>
   mockSearch [typescript_guide] '' '' (Num 10) =
     [\<lparr>res_id = ''1'', score = 1 / 2, article = typescript_guide\<rparr>]"
proof -
  have blank: "\<forall>c\<in>set '' ''. is_space c"
    by (simp add: is_space_def)
  have "searchableContent typescript_guide = ''typescript guide   dev''"
    by code_simp
  then have "sublist '' '' (searchableContent typescript_guide)"
    by (simp add: str_includes_sublist [symmetric])
  then show ?thesis
    using blank mockSearch_blank_query [OF blank, of "[typescript_guide]" "Num 10"]
    by (simp add: typescript_guide_def)
qed

subsection \<open>The one-article corpus\<close>

lemma toLowerCase_typescript: "toLowerCase ''typescript'' = ''typescript''"
  by code_simp

lemma toLowerCase_guide: "toLowerCase ''TypeScript Guide'' = ''typescript guide''"
  by code_simp

lemma toLowerCase_guide_dev: "toLowerCase ''TypeScript Guide   Dev'' = ''typescript guide   dev''"
  by code_simp

lemma queryWords_typescript: "queryWords ''typescript'' = [''typescript'']"
  by (simp add: queryWords_def split_ws_def is_space_def)

text \<open>
  C3, as the claim states it, fails: the score of the one result is not the sum that
  starts at 0 and adds 0.1 and 0.2, nor the double 0.3, nor the fraction 3/10.
\<close>

theorem mockSearch_typescript_counterexample:
  "map score (mockSearch [typescript_guide] ''typescript'' (Num 10)) \<noteq>
     [fadd (fadd 0 lit_0_1) lit_0_2] \<and>
   map score (mockSearch [typescript_guide] ''typescript'' (Num 10)) \<noteq> [fl (3 / 10)] \<and>
   map score (mockSearch [typescript_guide] ''typescript'' (Num 10)) \<noteq> [3 / 10]"
  by code_simp

text \<open>
  C3, amended. For the one-article corpus with title "TypeScript Guide", empty summary
  and body, category "Dev" and no tags (any id and other fields), the query "typescript"
  returns exactly one result, and its score is 0.5 + 0.1 + 0.2, the double 0.8: the
  searchable text "typescript guide   dev" contains the whole query, so the phrase bonus
  is added before the word match and the title bonus.
\<close>

theorem mockSearch_typescript:
  "mockSearch [a\<lparr>title := ''TypeScript Guide'', summary := [], body := [],
                 category := ''Dev'', tags := Some []\<rparr>] ''typescript'' (Num 10) =
     [\<lparr>res_id = art_id a, score = fadd (fadd (fadd 0 lit_0_5) lit_0_1) lit_0_2,
       article = a\<lparr>title := ''TypeScript Guide'', summary := [], body := [],
                    category := ''Dev'', tags := Some []\<rparr>\<rparr>] \<and>
   fadd (fadd (fadd 0 lit_0_5) lit_0_1) lit_0_2 = fl (8 / 10)"
proof -
  let ?a = "a\<lparr>title := ''TypeScript Guide'', summary := [], body := [],
               category := ''Dev'', tags := Some []\<rparr>"
  have content: "searchableContent ?a = ''typescript guide   dev''"
    using toLowerCase_guide_dev by (simp add: searchableContent_def)
  have "score_article ''typescript'' [''typescript''] ?a =
      \<lparr>res_id = art_id a, score = 3602879701896397 / 4503599627370496, article = ?a\<rparr>"
    by (simp add: score_article_def Let_def content toLowerCase_guide fadd_phrase_word_title)
  then have "mockSearch [?a] ''typescript'' (Num 10) =
      [\<lparr>res_id = art_id a, score = 3602879701896397 / 4503599627370496, article = ?a\<rparr>]"
    by (simp add: mockSearch_def scored_def Let_def toLowerCase_typescript
        queryWords_typescript sort_by_def)
  moreover have "fadd (fadd (fadd 0 lit_0_5) lit_0_1) lit_0_2 = fl (8 / 10)"
    by (simp only: fadd_phrase_word_title fl_0_8)
  ultimately show ?thesis
    by (simp only: fadd_phrase_word_title simp_thms)
qed

section \<open>Properties of the search endpoint\<close>

text \<open>
  C9. A request without the parameter \<open>q\<close> is answered with status 400 and an error
  body, and no backend is called: neither the vector search nor the fallback scorer.
\<close>

theorem GET_missing_query:
  "param_q req = None \<Longrightarrow>
   GET env req = (\<lparr>status = 400, payload = ErrorBody q_required\<rparr>, [])"
  by (simp add: GET_def bad_request_def Let_def)

theorem GET_missing_query_witness:
  "param_q \<lparr>param_q = None, param_limit = Some ''5''\<rparr> = None \<and>
   GET demo_env \<lparr>param_q = None, param_limit = Some ''5''\<rparr> =
     (\<lparr>status = 400, payload = ErrorBody q_required\<rparr>, []) \<and>
   snd (GET demo_env \<lparr>param_q = Some ''typescript'', param_limit = Some ''1''\<rparr>) =
     [MockSearch ''typescript'' (Num 1)]"
proof -
  have "parseInt ''1'' = Num 1"
    by code_simp
  then have "snd (GET demo_env \<lparr>param_q = Some ''typescript'', param_limit = Some ''1''\<rparr>) =
     [MockSearch ''typescript'' (Num 1)]"
    by (simp add: GET_def demo_env_def Let_def)
  then show ?thesis
    using GET_missing_query [of "\<lparr>param_q = None, param_limit = Some ''5''\<rparr>" demo_env]
    by simp
qed

section \<open>Properties of the indexer\<close>

subsection \<open>The order of the steps\<close>

lemma ensureIndexExists_events:
  "list_all ensure_event (fst (ensureIndexExists w n)) \<and>
   (\<exists>evs. fst (ensureIndexExists w n) = ListIndexes # evs)"
  by (simp add: ensureIndexExists_def split: option.split)

lemma index_articles_events: "list_all loop_event (fst (index_articles w as))"
  by (induction as) (auto simp: Let_def split: prod.split)

lemma main_fresh_world:
  "fst (main fresh_world True) =
     [ListIndexes, CreateIndex ''decoupled-search'', WaitReady, DeleteAll, FetchArticles,
      Embed (truncatedText cooking), Upsert ''3'', Pause]"
  by (simp add: main_def fresh_world_def indexName_def ensureIndexExists_def Let_def cooking_def)

text \<open>
  C8, as the claim states it, fails: with \<open>--reset\<close> and no index yet, the run lists
  the indexes, creates the index and waits, and only then clears it.
\<close>

theorem main_reset_order_counterexample:
  "fst (main fresh_world True) =
     [ListIndexes, CreateIndex ''decoupled-search'', WaitReady, DeleteAll, FetchArticles,
      Embed (truncatedText cooking), Upsert ''3'', Pause] \<and>
   fst (main fresh_world True) ! 0 \<noteq> DeleteAll"
  by (simp add: main_fresh_world)

text \<open>
  C8, amended. In every run with \<open>--reset\<close> and an API key, the indexer first checks
  that the index exists and creates it (waiting for readiness) if it is absent; if that
  step returns, it then clears the index, then fetches the articles, then runs the
  embed-and-upsert loop. The existence step starts with the listing of the indexes and
  holds no clear; the loop holds only embed, upsert and pause calls: the clear step
  happens once, never before the existence step and never after the loop has begun.
\<close>

theorem main_reset_order:
  assumes "pinecone_api_key w = Some key" and "key \<noteq> []"
  shows "fst (main w True) =
           fst (ensureIndexExists w (indexName w)) @
           (if snd (ensureIndexExists w (indexName w))
            then DeleteAll # FetchArticles #
                 (case fetched w of None \<Rightarrow> [] | Some as \<Rightarrow> fst (index_articles w as))
            else []) \<and>
         list_all ensure_event (fst (ensureIndexExists w (indexName w))) \<and>
         (\<exists>evs. fst (ensureIndexExists w (indexName w)) = ListIndexes # evs) \<and>
         list_all loop_event
           (case fetched w of None \<Rightarrow> [] | Some as \<Rightarrow> fst (index_articles w as))"
proof -
  have "fst (main w True) =
           fst (ensureIndexExists w (indexName w)) @
           (if snd (ensureIndexExists w (indexName w))
            then DeleteAll # FetchArticles #
                 (case fetched w of None \<Rightarrow> [] | Some as \<Rightarrow> fst (index_articles w as))
            else [])"
    using assms by (simp add: main_def Let_def split: prod.split option.split)
  moreover have "list_all loop_event
           (case fetched w of None \<Rightarrow> [] | Some as \<Rightarrow> fst (index_articles w as))"
    by (simp add: index_articles_events split: option.split)
  ultimately show ?thesis
    using ensureIndexExists_events [of w "indexName w"] by blast
qed

theorem main_reset_order_witness:
  "pinecone_api_key fresh_world = Some ''key'' \<and> ''key'' \<noteq> [] \<and>
   fst (ensureIndexExists fresh_world (indexName fresh_world)) =
     [ListIndexes, CreateIndex ''decoupled-search'', WaitReady] \<and>
   fst (main fresh_world True) =
     fst (ensureIndexExists fresh_world (indexName fresh_world)) @
     [DeleteAll, FetchArticles, Embed (truncatedText cooking), Upsert ''3'', Pause]"
proof -
  have key: "pinecone_api_key fresh_world = Some ''key''" and ne: "''key'' \<noteq> []"
    by (simp_all add: fresh_world_def)
  have "fst (ensureIndexExists fresh_world (indexName fresh_world)) =
     [ListIndexes, CreateIndex ''decoupled-search'', WaitReady]"
    by (simp add: fresh_world_def indexName_def ensureIndexExists_def)
  moreover have "snd (ensureIndexExists fresh_world (indexName fresh_world))"
    by (simp add: fresh_world_def indexName_def ensureIndexExists_def)
  moreover have "fetched fresh_world = Some [cooking]"
    by (simp add: fresh_world_def)
  moreover have "fst (index_articles fresh_world [cooking]) =
     [Embed (truncatedText cooking), Upsert ''3'', Pause]"
    by (simp add: fresh_world_def Let_def cooking_def)
  ultimately show ?thesis
    using key main_reset_order [OF key ne] by simp
qed

subsection \<open>The text that is embedded\<close>

lemma not_space_angle: "\<not> is_space CHR ''<''" "\<not> is_space CHR ''>''" "is_space CHR '' ''"
  by (simp_all add: is_space_def)

lemma set_strip_tags: "set (strip_tags s) \<subseteq> insert CHR '' '' (set s)"
proof (induction s rule: strip_tags.induct)
  case 1
  then show ?case by simp
next
  case (2 c cs)
  have "set (tl (dropWhile (\<lambda>x. x \<noteq> CHR ''>'') cs)) \<subseteq> set cs"
    by (metis list.set_sel(2) set_dropWhileD subsetI tl_Nil)
  with 2 show ?case by auto
qed

lemma strip_tags_no_tag: "\<not> subseq ''<>'' (strip_tags s)"
proof (induction s rule: strip_tags.induct)
  case 1
  then show ?case by simp
next
  case (2 c cs)
  show ?case
  proof (cases "c = CHR ''<'' \<and> CHR ''>'' \<in> set cs")
    case True
    with 2 show ?thesis by simp
  next
    case False
    have "CHR ''>'' \<in> set (strip_tags cs) \<Longrightarrow> CHR ''>'' \<in> set cs"
      using set_strip_tags [of cs] by auto
    with 2 False show ?thesis by (auto simp: subseq_singleton_left)
  qed
qed

lemma filter_dropWhile_not: "filter (\<lambda>x. \<not> P x) (dropWhile P xs) = filter (\<lambda>x. \<not> P x) xs"
  by (induction xs) simp_all

lemma filter_collapse_ws:
  "filter (\<lambda>x. \<not> is_space x) (collapse_ws s) = filter (\<lambda>x. \<not> is_space x) s"
  by (induction s rule: collapse_ws.induct) (simp_all add: filter_dropWhile_not not_space_angle)

lemma subseq_collapse_ws:
  assumes "subseq xs (collapse_ws s)" and "\<forall>c\<in>set xs. \<not> is_space c"
  shows "subseq xs s"
proof -
  have "subseq (filter (\<lambda>x. \<not> is_space x) xs) (filter (\<lambda>x. \<not> is_space x) (collapse_ws s))"
    using assms(1) by (rule subseq_filter)
  moreover have "filter (\<lambda>x. \<not> is_space x) xs = xs"
    using assms(2) by (simp add: filter_id_conv)
  ultimately have "subseq xs (filter (\<lambda>x. \<not> is_space x) s)"
    by (simp add: filter_collapse_ws)
  then show ?thesis
    by (meson subseq_filter_left subseq_order.trans)
qed

lemma collapse_ws_spaces: "c \<in> set (collapse_ws s) \<Longrightarrow> is_space c \<Longrightarrow> c = CHR '' ''"
  by (induction s rule: collapse_ws.induct) (auto split: if_splits)

lemma collapse_ws_hd:
  "collapse_ws s \<noteq> [] \<Longrightarrow> s \<noteq> [] \<and> (\<not> is_space (hd s) \<longrightarrow> \<not> is_space (hd (collapse_ws s)))"
  by (cases s) auto

lemma collapse_ws_no_runs: "successively (\<lambda>x y. \<not> (is_space x \<and> is_space y)) (collapse_ws s)"
proof (induction s rule: collapse_ws.induct)
  case 1
  then show ?case by simp
next
  case (2 c cs)
  show ?case
  proof (cases "is_space c")
    case True
    let ?rest = "collapse_ws (dropWhile is_space cs)"
    have "?rest \<noteq> [] \<Longrightarrow> \<not> is_space (hd ?rest)"
      using collapse_ws_hd [of "dropWhile is_space cs"] hd_dropWhile [of is_space cs] by blast
    with 2 True show ?thesis by (auto simp: successively_Cons)
  next
    case False
    with 2 show ?thesis by (simp add: successively_Cons)
  qed
qed

lemma trim_sublist: "sublist (trim s) s"
proof -
  let ?t = "dropWhile is_space s"
  have "sublist (dropWhile is_space (rev ?t)) (rev ?t)"
    by (simp add: suffix_dropWhile)
  then have "sublist (trim s) ?t"
    by (simp add: trim_def sublist_rev_left)
  moreover have "sublist ?t s"
    by (simp add: suffix_dropWhile)
  ultimately show ?thesis
    by (rule sublist_order.order.trans)
qed

lemma successively_sublist: "sublist xs ys \<Longrightarrow> successively P ys \<Longrightarrow> successively P xs"
  by (auto simp: sublist_def successively_append_iff)

lemma last_dropWhile: "dropWhile P xs \<noteq> [] \<Longrightarrow> last (dropWhile P xs) = last xs"
  by (metis last_appendR takeWhile_dropWhile_id)

lemma trim_ends: "trim s \<noteq> [] \<Longrightarrow> \<not> is_space (hd (trim s)) \<and> \<not> is_space (last (trim s))"
proof -
  assume ne: "trim s \<noteq> []"
  let ?t = "dropWhile is_space s"
  let ?u = "dropWhile is_space (rev ?t)"
  from ne have u: "?u \<noteq> []" by (simp add: trim_def)
  then have t: "?t \<noteq> []" by (metis dropWhile.simps(1) rev.simps(1))
  have "last (trim s) = hd ?u"
    using u by (simp add: trim_def last_rev)
  moreover have "\<not> is_space (hd ?u)"
    using u by (rule hd_dropWhile)
  moreover have "hd (trim s) = last ?u"
    using u by (simp add: trim_def hd_rev)
  moreover have "last ?u = hd ?t"
    using u t by (simp add: last_dropWhile last_rev)
  moreover have "\<not> is_space (hd ?t)"
    using t by (rule hd_dropWhile)
  ultimately show ?thesis by simp
qed

lemma plainBody_indexing:
  "plainBody ''<p>Indexing with TypeScript</p>'' = ''Indexing with TypeScript''"
  by code_simp

lemma spec_plainBody_indexing:
  "spec_plainBody ''<p>Indexing with TypeScript</p>'' = '' Indexing with TypeScript ''"
  by code_simp

lemma plainBody_vector_search: "plainBody (body vector_search) = ''Indexing with TypeScript''"
  by (simp add: vector_search_def plainBody_indexing)

lemma truncatedText_vector_search:
  "truncatedText vector_search =
     ''Vector Search'' @ [CHR 0x0A, CHR 0x0A] @ ''Embeddings'' @ [CHR 0x0A, CHR 0x0A] @
     ''Indexing with TypeScript''"
  by (simp add: truncatedText_def textToEmbed_def vector_search_def plainBody_indexing)

lemma spec_embedding_input_vector_search:
  "spec_embedding_input vector_search =
     ''Vector Search'' @ [CHR 0x0A, CHR 0x0A] @ ''Embeddings'' @ [CHR 0x0A, CHR 0x0A] @
     '' Indexing with TypeScript ''"
  by (simp add: spec_embedding_input_def vector_search_def spec_plainBody_indexing)

text \<open>
  C7, as the claim states it, fails: the source also trims \<open>plainBody\<close>, so for a body
  that starts with a tag the text that is embedded has no space where the construction
  of the claim has one.
\<close>

theorem truncatedText_counterexample:
  "truncatedText vector_search \<noteq> spec_embedding_input vector_search"
  by (simp add: truncatedText_vector_search spec_embedding_input_vector_search)

text \<open>
  C7, amended. For every article the text that is embedded is the first 32000
  characters of title, two newlines, summary, two newlines and \<open>plainBody\<close>, where
  \<open>plainBody\<close> is the body with tag-like substrings replaced by a space, white space
  collapsed, and leading and trailing white space trimmed; so the text has at most
  32000 characters, and \<open>plainBody\<close> holds no \<open><\<close> with a \<open>>\<close> behind it, no white space
  but single spaces, and none at its ends.
\<close>

theorem truncatedText_construction:
  "truncatedText a =
     take 32000 (title a @ [CHR 0x0A, CHR 0x0A] @ summary a @ [CHR 0x0A, CHR 0x0A] @
                 trim (collapse_ws (strip_tags (body a)))) \<and>
   length (truncatedText a) \<le> 32000 \<and>
   \<not> subseq ''<>'' (plainBody (body a)) \<and>
   (\<forall>c\<in>set (plainBody (body a)). is_space c \<longrightarrow> c = CHR '' '') \<and>
   successively (\<lambda>x y. \<not> (is_space x \<and> is_space y)) (plainBody (body a)) \<and>
   (plainBody (body a) \<noteq> [] \<longrightarrow>
      \<not> is_space (hd (plainBody (body a))) \<and> \<not> is_space (last (plainBody (body a))))"
proof -
  let ?c = "collapse_ws (strip_tags (body a))"
  have sub: "sublist (plainBody (body a)) ?c"
    by (simp add: plainBody_def trim_sublist)
  have "\<not> subseq ''<>'' (plainBody (body a))"
  proof
    assume "subseq ''<>'' (plainBody (body a))"
    then have "subseq ''<>'' ?c"
      using sub by (meson sublist_imp_subseq subseq_order.trans)
    then have "subseq ''<>'' (strip_tags (body a))"
      by (rule subseq_collapse_ws) (simp add: not_space_angle)
    then show False by (simp add: strip_tags_no_tag)
  qed
  moreover have "\<forall>c\<in>set (plainBody (body a)). is_space c \<longrightarrow> c = CHR '' ''"
    using sub collapse_ws_spaces by (meson set_mono_sublist subsetD)
  moreover have "successively (\<lambda>x y. \<not> (is_space x \<and> is_space y)) (plainBody (body a))"
    using sub collapse_ws_no_runs by (rule successively_sublist)
  moreover have "plainBody (body a) \<noteq> [] \<longrightarrow>
      \<not> is_space (hd (plainBody (body a))) \<and> \<not> is_space (last (plainBody (body a)))"
    by (simp add: plainBody_def trim_ends)
  moreover have "truncatedText a =
     take 32000 (title a @ [CHR 0x0A, CHR 0x0A] @ summary a @ [CHR 0x0A, CHR 0x0A] @
                 trim (collapse_ws (strip_tags (body a))))"
    by (simp add: truncatedText_def textToEmbed_def plainBody_def)
  moreover have "length (truncatedText a) \<le> 32000"
    by (simp add: truncatedText_def)
  ultimately show ?thesis by blast
qed

theorem truncatedText_construction_witness:
  "plainBody (body vector_search) = ''Indexing with TypeScript'' \<and>
   truncatedText vector_search =
     ''Vector Search'' @ [CHR 0x0A, CHR 0x0A] @ ''Embeddings'' @ [CHR 0x0A, CHR 0x0A] @
     ''Indexing with TypeScript'' \<and>
   length (truncatedText vector_search) \<le> 32000 \<and>
   \<not> subseq ''<>'' (plainBody (body vector_search)) \<and>
   \<not> is_space (hd (plainBody (body vector_search))) \<and>
   \<not> is_space (last (plainBody (body vector_search)))"
  using truncatedText_construction [of vector_search]
    plainBody_vector_search truncatedText_vector_search
  by simp

section \<open>Properties of the content normalizer\<close>

lemma split_trim_abc: "map trim (split_on CHR '','' ''a, b , c'') = [''a'', ''b'', ''c'']"
  by code_simp

lemma tags_of_ok:
  "\<not> truthy v \<or> (\<exists>s. v = JString s) \<Longrightarrow>
   \<exists>ts. tags_of v = Inr ts \<and>
     (\<forall>s. v = JString s \<and> s \<noteq> [] \<longrightarrow> ts = map trim (split_on CHR '','' s)) \<and>
     (\<not> truthy v \<longrightarrow> ts = [])"
  by (cases v) auto

lemma path_replace_ok:
  "nullish v \<or> (\<exists>s. v = JString s) \<Longrightarrow>
   \<exists>r. path_replace v = Inr r \<and> (nullish v \<longrightarrow> r = JUndefined)"
  by (cases v) auto

lemma path_replace_nullish: "nullish v \<Longrightarrow> path_replace v = Inr JUndefined"
  by (cases v) simp_all

lemma tags_of_raises:
  "(\<exists>e. tags_of v = Inl e) \<longleftrightarrow> truthy v \<and> (\<forall>s. v \<noteq> JString s)"
  by (cases v) auto

lemma path_replace_raises:
  "(\<exists>e. path_replace v = Inl e) \<longleftrightarrow> \<not> nullish v \<and> (\<forall>s. v \<noteq> JString s)"
  by (cases v) auto

lemma transformArticle_raises:
  "(\<exists>e. transformArticle now node = Inl e) \<longleftrightarrow>
   truthy node \<and>
   ((\<exists>e. path_replace (get node ''path'') = Inl e) \<or>
    (\<exists>e. tags_of (get node ''tags'') = Inl e))"
  by (auto simp: transformArticle_def Let_def split: sum.splits)

text \<open>
  C6, as the claim states it, fails: a \<open>tags\<close> field that holds a list of strings
  instead of one comma-separated string makes \<open>transformArticle\<close> throw a \<open>TypeError\<close>.
\<close>

theorem transformArticle_counterexample:
  "transformArticle raw_time raw_tag_list = Inl TypeError"
  by (simp add: transformArticle_def raw_tag_list_def)

text \<open>
  C6, amended. \<open>transformArticle\<close> returns \<open>null\<close> if and only if the raw node is falsy
  (\<open>null\<close>, \<open>undefined\<close>, or another falsy value; an empty object is not). For a truthy
  node it does not throw when \<open>path\<close> is missing or a string and \<open>tags\<close> is falsy or a
  string, and then: a string \<open>tags\<close> is split at the commas and each entry trimmed, in
  order, so "a, b , c" gives a, b, c; a missing (falsy) category gives "General"; a
  missing (falsy) readTime gives "5 min read"; and a missing path gives the node's id
  as slug. It throws exactly when the node is truthy and \<open>path\<close> is neither missing
  (\<open>null\<close>, \<open>undefined\<close>) nor a string, or \<open>tags\<close> is truthy and not a string; a falsy
  \<open>tags\<close> of any type, such as 0 or \<open>false\<close>, gives no tags and no error.
\<close>

theorem transformArticle_defaults:
  "(transformArticle now node = Inr None \<longleftrightarrow> \<not> truthy node) \<and>
   map trim (split_on CHR '','' ''a, b , c'') = [''a'', ''b'', ''c''] \<and>
   (truthy node \<and>
    (nullish (get node ''path'') \<or> (\<exists>s. get node ''path'' = JString s)) \<and>
    (\<not> truthy (get node ''tags'') \<or> (\<exists>s. get node ''tags'' = JString s)) \<longrightarrow>
    (\<exists>a. transformArticle now node = Inr (Some a) \<and>
       (\<forall>s. get node ''tags'' = JString s \<and> s \<noteq> [] \<longrightarrow>
            out_tags a = map trim (split_on CHR '','' s)) \<and>
       (\<not> truthy (get node ''tags'') \<longrightarrow> out_tags a = []) \<and>
       (\<not> truthy (get node ''category'') \<longrightarrow> out_category a = JString ''General'') \<and>
       (\<not> truthy (get node ''readTime'') \<longrightarrow> out_readTime a = JString ''5 min read'') \<and>
       (nullish (get node ''path'') \<longrightarrow> out_slug a = get node ''id''))) \<and>
   ((\<exists>e. transformArticle now node = Inl e) \<longleftrightarrow>
      truthy node \<and>
      ((\<not> nullish (get node ''path'') \<and> (\<forall>s. get node ''path'' \<noteq> JString s)) \<or>
       (truthy (get node ''tags'') \<and> (\<forall>s. get node ''tags'' \<noteq> JString s))))"
proof -
  have raises: "(\<exists>e. transformArticle now node = Inl e) \<longleftrightarrow>
      truthy node \<and>
      ((\<not> nullish (get node ''path'') \<and> (\<forall>s. get node ''path'' \<noteq> JString s)) \<or>
       (truthy (get node ''tags'') \<and> (\<forall>s. get node ''tags'' \<noteq> JString s)))"
    by (simp only: transformArticle_raises path_replace_raises tags_of_raises)
  have null_iff: "transformArticle now node = Inr None \<longleftrightarrow> \<not> truthy node"
    by (simp add: transformArticle_def Let_def split: sum.split)
  have ok: "\<exists>a. transformArticle now node = Inr (Some a) \<and>
       (\<forall>s. get node ''tags'' = JString s \<and> s \<noteq> [] \<longrightarrow>
            out_tags a = map trim (split_on CHR '','' s)) \<and>
       (\<not> truthy (get node ''tags'') \<longrightarrow> out_tags a = []) \<and>
       (\<not> truthy (get node ''category'') \<longrightarrow> out_category a = JString ''General'') \<and>
       (\<not> truthy (get node ''readTime'') \<longrightarrow> out_readTime a = JString ''5 min read'') \<and>
       (nullish (get node ''path'') \<longrightarrow> out_slug a = get node ''id'')"
    if node: "truthy node"
      and path: "nullish (get node ''path'') \<or> (\<exists>s. get node ''path'' = JString s)"
      and tags: "\<not> truthy (get node ''tags'') \<or> (\<exists>s. get node ''tags'' = JString s)"
  proof -
    obtain r where r: "path_replace (get node ''path'') = Inr r"
      and r_null: "nullish (get node ''path'') \<longrightarrow> r = JUndefined"
      using path_replace_ok [OF path] by blast
    obtain ts where ts: "tags_of (get node ''tags'') = Inr ts"
      and ts_str: "\<forall>s. get node ''tags'' = JString s \<and> s \<noteq> [] \<longrightarrow>
                     ts = map trim (split_on CHR '','' s)"
      and ts_none: "\<not> truthy (get node ''tags'') \<longrightarrow> ts = []"
      using tags_of_ok [OF tags] by blast
    show ?thesis
      using node r r_null ts ts_str ts_none
      by (simp add: transformArticle_def Let_def js_or_def)
  qed
  show ?thesis
    using null_iff ok split_trim_abc raises by blast
qed

theorem transformArticle_defaults_witness:
  "truthy raw_tagged \<and> nullish (get raw_tagged ''path'') \<and>
   get raw_tagged ''tags'' = JString ''a, b , c'' \<and>
   \<not> truthy (get raw_tagged ''category'') \<and> \<not> truthy (get raw_tagged ''readTime'') \<and>
   (\<exists>a. transformArticle raw_time raw_tagged = Inr (Some a) \<and>
        out_tags a = [''a'', ''b'', ''c''] \<and>
        out_category a = JString ''General'' \<and>
        out_readTime a = JString ''5 min read'' \<and>
        out_slug a = JString ''n1'') \<and>
   (\<exists>e. transformArticle raw_time raw_tag_list = Inl e) \<and>
   (\<exists>a. transformArticle raw_time (JObject [(''tags'', JNumber 0)]) = Inr (Some a) \<and>
        out_tags a = [])"
proof -
  have list: "truthy raw_tag_list" "truthy (get raw_tag_list ''tags'')"
    "\<forall>s. get raw_tag_list ''tags'' \<noteq> JString s"
    by (simp_all add: raw_tag_list_def)
  have raised: "\<exists>e. transformArticle raw_time raw_tag_list = Inl e"
    using transformArticle_defaults [of raw_time raw_tag_list] list by blast
  have zero: "truthy (JObject [(''tags'', JNumber 0)])"
    "nullish (get (JObject [(''tags'', JNumber 0)]) ''path'')"
    "\<not> truthy (get (JObject [(''tags'', JNumber 0)]) ''tags'')"
    by simp_all
  have no_tags: "\<exists>a. transformArticle raw_time (JObject [(''tags'', JNumber 0)]) = Inr (Some a) \<and>
        out_tags a = []"
    using transformArticle_defaults [of raw_time "JObject [(''tags'', JNumber 0)]"] zero
    by blast
  have facts: "truthy raw_tagged" "nullish (get raw_tagged ''path'')"
    "get raw_tagged ''tags'' = JString ''a, b , c''" "get raw_tagged ''id'' = JString ''n1''"
    "\<not> truthy (get raw_tagged ''category'')" "\<not> truthy (get raw_tagged ''readTime'')"
    by (simp_all add: raw_tagged_def)
  then have "\<exists>a. transformArticle raw_time raw_tagged = Inr (Some a) \<and>
        out_tags a = [''a'', ''b'', ''c''] \<and>
        out_category a = JString ''General'' \<and>
        out_readTime a = JString ''5 min read'' \<and>
        out_slug a = JString ''n1''"
    using transformArticle_defaults [of raw_time raw_tagged] split_trim_abc
    by auto
  with facts raised no_tags show ?thesis
    by blast
qed


end
